theory Spec2Isabelle
  imports Main "HOL-Library.Char_ord" "HOL-Library.List_Lexorder"
begin

section \<open>Tree diff: the callback of \<open>diff\<close>\<close>

text \<open>
  \<open>src/isomorphicGit.ts\<close>, \<open>diff(commitHash1, commitHash2)\<close>, hands \<open>git.walk\<close> two
  tree walkers and a \<open>map\<close> callback. The callback receives the path and one
  \<open>WalkerEntry\<close> per walker; an entry is \<open>null\<close> when the path does not exist on that
  side. Of a \<open>WalkerEntry\<close> the callback reads \<open>type()\<close> and \<open>oid()\<close> only.
\<close>

type_synonym oid = string

datatype entry_type = Type_tree | Type_blob | Type_special | Type_commit

record WalkerEntry =
  etype :: entry_type
  eoid :: oid

text \<open>\<open>DiffResult\<close> of \<open>./types\<close>: \<open>{ path, type }\<close>. The field names are prefixed because
  \<open>FileStatusResult\<close> has a \<open>path\<close> too.\<close>

datatype diff_type = Equal | Modify | Add | Remove

record DiffResult =
  diff_path :: string
  diff_type :: diff_type

text \<open>What \<open>console.log\<close> receives: a string or one of the two entries.\<close>

datatype log_item = LogString string | LogEntry "WalkerEntry option"

text \<open>
  The \<open>map\<close> callback (lines 332 to 367). \<open>A?.type()\<close> and \<open>A?.oid()\<close> are
  \<open>undefined\<close> for a \<open>null\<close> entry, which \<open>map_option\<close> gives as \<open>None\<close>. The variable
  \<open>type\<close> is assigned up to three times in sequence; \<open>type1\<close>, \<open>type2\<close>, \<open>type3\<close> are
  its successive values. Returning nothing (\<open>return;\<close>) is \<open>None\<close>. The second
  component is what the call writes to the console.
\<close>

definition diff_map ::
  "string \<Rightarrow> WalkerEntry option \<Rightarrow> WalkerEntry option \<Rightarrow> DiffResult option \<times> log_item list"
where
  "diff_map filepath A B =
    (if filepath = ''.'' then (None, [])
     else if map_option etype A = Some Type_tree \<or> map_option etype B = Some Type_tree
       then (None, [])
     else
       let Aoid = map_option eoid A;
           Boid = map_option eoid B;
           type0 = Equal;
           type1 = (if Aoid \<noteq> Boid then Modify else type0);
           type2 = (if Aoid = None then Remove else type1);
           type3 = (if Boid = None then Add else type2);
           logged = (if Aoid = None \<and> Boid = None
                     then [LogString ''Something weird happened:'', LogEntry A, LogEntry B]
                     else [])
       in (Some \<lparr>diff_path = ''/'' @ filepath, diff_type = type3\<rparr>, logged))"

section \<open>Tree diff: the synchronized walk\<close>

text \<open>
  A commit's tree as the object store holds it: a blob with its object id, or a tree with
  its object id and its named children in the order \<open>readdir\<close> lists them.
\<close>

datatype gtree = Blob oid | Tree oid "(string \<times> gtree) list"

text \<open>The \<open>WalkerEntry\<close> a tree walker builds for a node.\<close>

fun entry :: "gtree \<Rightarrow> WalkerEntry" where
  "entry (Blob h) = \<lparr>etype = Type_blob, eoid = h\<rparr>"
| "entry (Tree h kids) = \<lparr>etype = Type_tree, eoid = h\<rparr>"

text \<open>
  Modelled from the spec: \<open>git.walk\<close>, which \<open>diff\<close> calls and which is code of the
  isomorphic-git library, not of \<open>src/\<close>. The spec (4.2 and 6) describes a synchronized
  recursive walk over the two trees, path by path, in a deterministic order, a missing
  side being an empty subtree. The functions below follow the library's shape for two
  walkers: \<open>readdir\<close> lists the children of a directory (none for a blob or a missing
  side), \<open>unionOfIterators\<close> merges the two sorted listings into one, pairing the
  children that carry the same name, \<open>walk\<close> calls \<open>map\<close> on a path and then walks the
  children, and \<open>reduce\<close> (the default one) puts the parent's result, when there is
  one, in front of the children's flattened results. The callback \<open>map\<close> of \<open>diff\<close>
  never returns \<open>null\<close>, so the walk never prunes a subtree.
\<close>

fun readdir :: "gtree option \<Rightarrow> (string \<times> gtree) list" where
  "readdir None = []"
| "readdir (Some (Blob h)) = []"
| "readdir (Some (Tree h kids)) = kids"

fun unionOfIterators ::
  "(string \<times> 'a) list \<Rightarrow> (string \<times> 'a) list \<Rightarrow> (string \<times> 'a option \<times> 'a option) list"
where
  "unionOfIterators [] [] = []"
| "unionOfIterators ((n, a) # as) [] = (n, Some a, None) # unionOfIterators as []"
| "unionOfIterators [] ((m, b) # bs) = (m, None, Some b) # unionOfIterators [] bs"
| "unionOfIterators ((n, a) # as) ((m, b) # bs) =
     (if n = m then (n, Some a, Some b) # unionOfIterators as bs
      else if n < m then (n, Some a, None) # unionOfIterators as ((m, b) # bs)
      else (m, None, Some b) # unionOfIterators ((n, a) # as) bs)"

text \<open>The path of a child: the root is \<open>.\<close>, and a child of the root is its bare name.\<close>

definition join :: "string \<Rightarrow> string \<Rightarrow> string" where
  "join dir name = (if dir = ''.'' then name else dir @ ''/'' @ name)"

definition reduce :: "'r option \<Rightarrow> 'r list \<Rightarrow> 'r list" where
  "reduce parent children = (case parent of None \<Rightarrow> children | Some p \<Rightarrow> p # children)"

text \<open>The measure of the walk's termination: the nodes still to visit.\<close>

definition wo :: "gtree option \<Rightarrow> nat" where
  "wo x = (case x of None \<Rightarrow> 0 | Some t \<Rightarrow> Suc (size t))"

lemma union_weight:
  "(\<Sum>(n, a, b)\<leftarrow>unionOfIterators xs ys. wo a + wo b + 1)
     \<le> (\<Sum>(n, a)\<leftarrow>xs. size a + 2) + (\<Sum>(n, b)\<leftarrow>ys. size b + 2)"
  by (induction xs ys rule: unionOfIterators.induct) (auto simp: wo_def)

lemma size_kids:
  "(\<Sum>(n, a)\<leftarrow>kids. Suc (Suc (size a))) = size_list (size_prod (\<lambda>x. 0) size) kids"
  by (induction kids) auto

lemma kids_weight: "(\<Sum>(n, a)\<leftarrow>readdir A. size a + 2) \<le> wo A"
  by (cases A rule: readdir.cases) (simp_all add: wo_def size_kids)

lemma walk_decreases:
  "(\<Sum>(n, a, b)\<leftarrow>unionOfIterators (readdir A) (readdir B). wo a + wo b + 1)
     < wo A + wo B + 1"
  using union_weight [of "readdir A" "readdir B"] kids_weight [of A] kids_weight [of B]
  by linarith

function walk ::
    "(string \<Rightarrow> WalkerEntry option \<Rightarrow> WalkerEntry option \<Rightarrow> 'r option \<times> log_item list)
      \<Rightarrow> string \<Rightarrow> gtree option \<Rightarrow> gtree option \<Rightarrow> 'r list \<times> log_item list"
  and iterate ::
    "(string \<Rightarrow> WalkerEntry option \<Rightarrow> WalkerEntry option \<Rightarrow> 'r option \<times> log_item list)
      \<Rightarrow> string \<Rightarrow> (string \<times> gtree option \<times> gtree option) list
      \<Rightarrow> 'r list \<times> log_item list"
where
  "walk mp filepath A B =
     (let (parent, l1) = mp filepath (map_option entry A) (map_option entry B);
          (children, l2) = iterate mp filepath (unionOfIterators (readdir A) (readdir B))
      in (reduce parent children, l1 @ l2))"
| "iterate mp filepath [] = ([], [])"
| "iterate mp filepath ((name, a, b) # rest) =
     (let (r1, l1) = walk mp (join filepath name) a b;
          (r2, l2) = iterate mp filepath rest
      in (r1 @ r2, l1 @ l2))"
  by pat_completeness auto
termination
proof (relation "measures [
     (\<lambda>x. case x of Inl (mp, fp, A, B) \<Rightarrow> wo A + wo B + 1
                   | Inr (mp, fp, xs) \<Rightarrow> (\<Sum>(n, a, b)\<leftarrow>xs. wo a + wo b + 1)),
     (\<lambda>x. case x of Inl _ \<Rightarrow> 0 | Inr _ \<Rightarrow> 1)]", goal_cases)
  case 1
  show ?case by simp
next
  case (2 mp filepath A B)
  show ?case using walk_decreases [of A B] by simp
next
  case (3 mp filepath name a b rest)
  show ?case by (cases rest) auto
next
  case 4
  show ?case by simp
qed

declare walk.simps [simp del]

section \<open>The repository provider and the plugin\<close>

text \<open>
  What a call can throw. \<open>getCurrentCommit\<close> reads \<open>error.code\<close> and
  \<open>error.data.what\<close>: \<open>NotFoundError what\<close> is an error whose code is
  \<open>"NotFoundError"\<close>. \<open>TypeError\<close> is what reading \<open>.oid\<close> of \<open>undefined\<close> throws.
\<close>

datatype error = NotFoundError string | TypeError | OtherError string

text \<open>\<open>ReadCommitResult\<close> of isomorphic-git; the code reads its \<open>oid\<close> only.\<close>

record ReadCommitResult =
  oid :: oid

text \<open>A row of \<open>git.statusMatrix\<close>; the fields are the positions \<open>FILE = 0\<close>,
  \<open>HEAD = 1\<close>, \<open>WORKDIR = 2\<close>, \<open>STAGE = 3\<close> that the class declares.\<close>

record row =
  FILE :: string
  HEAD :: nat
  WORKDIR :: nat
  STAGE :: nat

text \<open>\<open>FileStatusResult\<close>, \<open>Status\<close> and \<open>BranchInfo\<close> of \<open>./types\<close>, with the fields this
  file writes. \<open>index\<close> is \<open>undefined\<close> (here \<open>None\<close>) when the table has no such key.\<close>

record FileStatusResult =
  index :: "string option"
  path :: string

record Status =
  changed :: "FileStatusResult list"
  staged :: "string list"

record BranchInfo =
  current :: string
  tracking :: string
  branches :: "string list"
  remoteBranches :: "string list option"

text \<open>The members of \<open>PluginState\<close> that this file sets.\<close>

datatype PluginState =
  PluginState_status | PluginState_commit | PluginState_pull | PluginState_push

text \<open>
  The isomorphic-git calls of this file, the base class's \<open>formatCommitMessage\<close> and the
  clock are parameters: a provider over a repository state \<open>'s\<close>. A call that throws
  returns \<open>Inl\<close>; a call that changes the repository returns the new state.
  \<open>git_TREE ref\<close> is the root tree the walker \<open>git.TREE({ ref })\<close> reads.
\<close>

record 's git =
  git_log :: "nat \<Rightarrow> 's \<Rightarrow> error + ReadCommitResult list"
  git_statusMatrix :: "'s \<Rightarrow> error + row list"
  git_add :: "string \<Rightarrow> 's \<Rightarrow> error + 's"
  git_remove :: "string \<Rightarrow> 's \<Rightarrow> error + 's"
  git_commit :: "string \<Rightarrow> 's \<Rightarrow> error + 's"
  git_currentBranch :: "'s \<Rightarrow> error + string option"
  git_listBranches :: "string option \<Rightarrow> 's \<Rightarrow> error + string list"
  git_getConfig :: "string \<Rightarrow> 's \<Rightarrow> error + string option"
  git_TREE :: "string \<Rightarrow> 's \<Rightarrow> error + gtree"
  formatCommitMessage :: "'s \<Rightarrow> error + string"
  Date_now :: "'s \<Rightarrow> nat"

text \<open>
  The state a method runs in: the repository, and of the plugin the state it shows, the
  errors \<open>displayError\<close> was given, \<open>lastUpdate\<close>, and the console.
\<close>

record 's world =
  repo :: 's
  state :: PluginState
  displayed :: "error list"
  lastUpdate :: nat
  console :: "log_item list"

type_synonym ('s, 'a) action = "'s world \<Rightarrow> (error + 'a) \<times> 's world"

definition setState :: "PluginState \<Rightarrow> 's world \<Rightarrow> 's world" where
  "setState st w = w\<lparr>state := st\<rparr>"

definition displayError :: "error \<Rightarrow> 's world \<Rightarrow> 's world" where
  "displayError e w = w\<lparr>displayed := displayed w @ [e]\<rparr>"

text \<open>\<open>const x = await m; f x\<close>: a rejected promise skips the rest. \<open>await\<close> is for calls
  that only read the repository, \<open>awaitS\<close> threads the state.\<close>

definition await :: "error + 'a \<Rightarrow> ('a \<Rightarrow> error + 'b) \<Rightarrow> error + 'b" where
  "await m f = (case m of Inl e \<Rightarrow> Inl e | Inr a \<Rightarrow> f a)"

definition awaitS :: "('s, 'a) action \<Rightarrow> ('a \<Rightarrow> ('s, 'b) action) \<Rightarrow> ('s, 'b) action" where
  "awaitS m f w = (case m w of (Inl e, w') \<Rightarrow> (Inl e, w') | (Inr a, w') \<Rightarrow> f a w')"

definition query :: "('s \<Rightarrow> error + 'a) \<Rightarrow> ('s, 'a) action" where
  "query f w = (f (repo w), w)"

definition update :: "('s \<Rightarrow> error + 's) \<Rightarrow> ('s, unit) action" where
  "update f w = (case f (repo w) of Inl e \<Rightarrow> (Inl e, w) | Inr s \<Rightarrow> (Inr (), w\<lparr>repo := s\<rparr>))"

text \<open>\<open>catch (error) { this.plugin.displayError(error); throw error; }\<close>\<close>

definition catch_display :: "('s, 'a) action \<Rightarrow> ('s, 'a) action" where
  "catch_display m w =
     (case m w of (Inl e, w') \<Rightarrow> (Inl e, displayError e w') | (Inr a, w') \<Rightarrow> (Inr a, w'))"

section \<open>Status\<close>

text \<open>The table \<open>indexes\<close> (lines 15 to 30); a lookup of a key it does not hold is
  \<open>undefined\<close>.\<close>

definition indexes :: "string \<rightharpoonup> string" where
  "indexes = map_of
    [(''000'', ''''),
     (''003'', ''AD''),
     (''020'', ''??''),
     (''022'', ''A''),
     (''023'', ''AM''),
     (''100'', ''D ''),
     (''101'', '' D''),
     (''103'', ''MD''),
     (''110'', ''D ??''),
     (''111'', ''''),
     (''120'', ''D ??''),
     (''121'', '' M''),
     (''122'', ''M ''),
     (''123'', ''MM'')]"

text \<open>A number in a template literal: its decimal digits.\<close>

definition digit :: "nat \<Rightarrow> char" where
  "digit d = ''0123456789'' ! d"

fun toString :: "nat \<Rightarrow> string" where
  "toString n = (if n < 10 then [digit n] else toString (n div 10) @ [digit (n mod 10)])"

declare toString.simps [simp del]

definition getFileStatusResult :: "row \<Rightarrow> FileStatusResult" where
  "getFileStatusResult row =
     (let index = indexes (toString (HEAD row) @ toString (WORKDIR row) @ toString (STAGE row))
      in \<lparr>index = index, path = FILE row\<rparr>)"

definition status :: "'s git \<Rightarrow> ('s, Status) action" where
  "status g w0 =
     (let w = setState PluginState_status w0 in
      catch_display
        (awaitS (query (git_statusMatrix g)) (\<lambda>status.
           let changed = map getFileStatusResult (filter (\<lambda>row. HEAD row \<noteq> WORKDIR row) status);
               staged = map FILE (filter (\<lambda>row. STAGE row = 3 \<or> STAGE row = 2) status)
           in (\<lambda>w'. (Inr \<lparr>changed = changed, staged = staged\<rparr>, w'))))
        w)"

section \<open>Branch information and the current commit\<close>

text \<open>\<open>s.split(sep)[1]\<close> for a non-empty separator: the part between the first and the
  second occurrence of \<open>sep\<close>, \<open>undefined\<close> when \<open>sep\<close> does not occur.\<close>

fun split_first :: "string \<Rightarrow> string \<Rightarrow> (string \<times> string) option" where
  "split_first sep [] = None"
| "split_first sep (c # cs) =
     (if take (length sep) (c # cs) = sep then Some ([], drop (length sep) (c # cs))
      else map_option (\<lambda>(before, after). (c # before, after)) (split_first sep cs))"

definition split_1 :: "string \<Rightarrow> string \<Rightarrow> string option" where
  "split_1 sep s =
     (case split_first sep s of
        None \<Rightarrow> None
      | Some (before, after) \<Rightarrow>
          Some (case split_first sep after of None \<Rightarrow> after | Some (part, rest) \<Rightarrow> part))"

text \<open>\<open>branchInfo\<close> (lines 176 to 222). Every call reads only. \<open>x || ""\<close> and
  \<open>x ?? d\<close> replace an absent value; \<open>remove("HEAD")\<close> deletes that name from the list.\<close>

definition branchInfo :: "'s git \<Rightarrow> bool \<Rightarrow> ('s, BranchInfo) action" where
  "branchInfo g listRemoteBranches =
     catch_display (\<lambda>w. (
       await (git_currentBranch g (repo w)) (\<lambda>currentBranch.
       let current = (case currentBranch of None \<Rightarrow> '''' | Some b \<Rightarrow> b) in
       await (git_listBranches g None (repo w)) (\<lambda>branches.
       await (git_getConfig g (''branch.'' @ current @ ''.remote'') (repo w)) (\<lambda>remoteConfig.
       let remote = (case remoteConfig of None \<Rightarrow> ''origin'' | Some r \<Rightarrow> r) in
       await (git_getConfig g (''branch.'' @ current @ ''.merge'') (repo w)) (\<lambda>mergeConfig.
       let branch = (case mergeConfig of None \<Rightarrow> ''''
                     | Some m \<Rightarrow> (case split_1 ''refs/heads'' m of None \<Rightarrow> '''' | Some b \<Rightarrow> b)) in
       await (if listRemoteBranches
              then await (git_listBranches g (Some remote) (repo w)) (\<lambda>bs.
                     Inr (Some (map (\<lambda>e. remote @ ''/'' @ e) (removeAll ''HEAD'' bs))))
              else Inr None) (\<lambda>remoteBranches.
       Inr \<lparr>current = current, tracking = remote @ branch, branches = branches,
            remoteBranches = remoteBranches\<rparr>))))), w))"

text \<open>\<open>getCurrentCommit\<close> (lines 305 to 320). \<open>(await git.log(...))[0]\<close> is \<open>undefined\<close>
  for an empty list. In the \<open>catch\<close>, \<open>branchInfo\<close> is awaited first; if it throws, its
  error is the one that leaves the method.\<close>

definition getCurrentCommit :: "'s git \<Rightarrow> ('s, ReadCommitResult option) action" where
  "getCurrentCommit g w =
     (case git_log g 1 (repo w) of
        Inr commits \<Rightarrow> (Inr (case commits of [] \<Rightarrow> None | c # cs \<Rightarrow> Some c), w)
      | Inl error \<Rightarrow>
          awaitS (branchInfo g False) (\<lambda>branch w'.
            if (case error of NotFoundError what \<Rightarrow> what = ''refs/heads/'' @ current branch
                | _ \<Rightarrow> False)
            then (Inr None, w')
            else (Inl error, w')) w)"

section \<open>Diff and the number of changed files\<close>

text \<open>\<open>diff\<close> (lines 327 to 369): the walk over the two commits' trees from the root
  \<open>.\<close> with the callback \<open>diff_map\<close>. A reference that does not resolve rejects.\<close>

definition diff :: "'s git \<Rightarrow> string \<Rightarrow> string \<Rightarrow> ('s, DiffResult list) action" where
  "diff g commitHash1 commitHash2 =
     awaitS (query (git_TREE g commitHash1)) (\<lambda>A.
     awaitS (query (git_TREE g commitHash2)) (\<lambda>B w.
       let (results, logged) = walk diff_map ''.'' (Some A) (Some B)
       in (Inr results, w\<lparr>console := console w @ logged\<rparr>)))"

text \<open>\<open>getChangedFiles\<close> (lines 322 to 324).\<close>

definition getChangedFiles :: "'s git \<Rightarrow> string \<Rightarrow> string \<Rightarrow> ('s, nat) action" where
  "getChangedFiles g commitHash1 commitHash2 =
     awaitS (diff g commitHash1 commitHash2) (\<lambda>files w.
       (Inr (length (filter (\<lambda>file. diff_type file \<noteq> Equal) files)), w))"

section \<open>Commit\<close>

text \<open>The \<open>Promise.all\<close> of \<open>commitAll\<close>: one \<open>git.add\<close> or \<open>git.remove\<close> per row, by the
  row's worktree column (\<open>0\<close> is falsy). The calls are taken in the rows' order, and the
  first that throws ends the sequence.\<close>

fun add_or_remove_all :: "'s git \<Rightarrow> row list \<Rightarrow> ('s, unit) action" where
  "add_or_remove_all g [] = (\<lambda>w. (Inr (), w))"
| "add_or_remove_all g (r # rest) =
     awaitS (update (if WORKDIR r \<noteq> 0 then git_add g (FILE r) else git_remove g (FILE r)))
       (\<lambda>_. add_or_remove_all g rest)"

text \<open>\<open>commitAll\<close> (lines 60 to 94). \<open>commitAfter.oid\<close> throws a \<open>TypeError\<close> when
  \<open>commitAfter\<close> is \<open>undefined\<close>; the method's result \<open>undefined\<close> is \<open>None\<close>.\<close>

definition commitAll :: "'s git \<Rightarrow> string option \<Rightarrow> ('s, nat option) action" where
  "commitAll g message w0 =
     catch_display
       (awaitS (getCurrentCommit g) (\<lambda>commitBefore.
        awaitS (query (git_statusMatrix g)) (\<lambda>status.
        awaitS (add_or_remove_all g status) (\<lambda>_.
        awaitS (case message of Some m \<Rightarrow> (\<lambda>w. (Inr m, w))
                | None \<Rightarrow> query (formatCommitMessage g)) (\<lambda>formatMessage.
        awaitS (update (git_commit g formatMessage)) (\<lambda>_.
        awaitS (getCurrentCommit g) (\<lambda>commitAfter.
        awaitS (\<lambda>w. (Inr (), w\<lparr>lastUpdate := Date_now g (repo w)\<rparr>)) (\<lambda>_.
          case commitBefore of
            Some c1 \<Rightarrow>
              (case commitAfter of
                 None \<Rightarrow> (\<lambda>w. (Inl TypeError, w))
               | Some c2 \<Rightarrow>
                   awaitS (getChangedFiles g (oid c1) (oid c2)) (\<lambda>n w. (Inr (Some n), w)))
          | None \<Rightarrow> (\<lambda>w. (Inr None, w))))))))))
       (setState PluginState_commit w0)"

section \<open>Leaf paths and visited paths\<close>

text \<open>The leaf paths of a tree: the paths of its blobs, in the walk's order.\<close>

fun files :: "string \<Rightarrow> gtree \<Rightarrow> string list"
  and files_in :: "string \<Rightarrow> (string \<times> gtree) list \<Rightarrow> string list"
where
  "files filepath (Blob h) = [filepath]"
| "files filepath (Tree h kids) = files_in filepath kids"
| "files_in dir [] = []"
| "files_in dir ((name, t) # rest) = files (join dir name) t @ files_in dir rest"

text \<open>The leaf paths below a side of the walk; a missing side has none.\<close>

definition files_opt :: "string \<Rightarrow> gtree option \<Rightarrow> string set" where
  "files_opt filepath A = (case A of None \<Rightarrow> {} | Some t \<Rightarrow> set (files filepath t))"

text \<open>Every call the walk over \<open>A\<close> and \<open>B\<close> makes to its callback: the walk run with a
  callback that returns its own arguments.\<close>

definition visited ::
  "gtree \<Rightarrow> gtree \<Rightarrow> (string \<times> WalkerEntry option \<times> WalkerEntry option) list"
where
  "visited A B = fst (walk (\<lambda>filepath a b. (Some (filepath, a, b), [])) ''.'' (Some A) (Some B))"

section \<open>A small repository for concrete runs\<close>

text \<open>
  A provider over a repository that holds its commits (newest first), the status matrix
  it reports, the tree of each reference and the branch's name. A commit gets its
  message as object id; with no commit, \<open>git.log\<close> fails on the branch's reference.
\<close>

record sample_repo =
  repo_commits :: "ReadCommitResult list"
  repo_matrix :: "row list"
  repo_trees :: "(string \<times> gtree) list"
  repo_branch :: string

definition sample_git :: "sample_repo git" where
  "sample_git =
     \<lparr>git_log = (\<lambda>depth s. if repo_commits s = []
                            then Inl (NotFoundError (''refs/heads/'' @ repo_branch s))
                            else Inr (take depth (repo_commits s))),
      git_statusMatrix = (\<lambda>s. Inr (repo_matrix s)),
      git_add = (\<lambda>filepath s. Inr s),
      git_remove = (\<lambda>filepath s. Inr s),
      git_commit = (\<lambda>message s. Inr (s\<lparr>repo_commits := \<lparr>oid = message\<rparr> # repo_commits s\<rparr>)),
      git_currentBranch = (\<lambda>s. Inr (Some (repo_branch s))),
      git_listBranches = (\<lambda>remote s. Inr [repo_branch s]),
      git_getConfig = (\<lambda>p s. Inr None),
      git_TREE = (\<lambda>ref s. case map_of (repo_trees s) ref of
                              None \<Rightarrow> Inl (NotFoundError ref) | Some t \<Rightarrow> Inr t),
      formatCommitMessage = (\<lambda>s. Inr ''vault backup''),
      Date_now = (\<lambda>s. 7)\<rparr>"

text \<open>The two trees of the spec's example (8.6): \<open>c2\<close> changes \<open>notes/a.md\<close> and adds
  \<open>notes/b.md\<close>.\<close>

definition tree_c1 :: gtree where
  "tree_c1 = Tree ''t1'' [(''notes'', Tree ''t2'' [(''a.md'', Blob ''h2'')]),
                          (''readme.md'', Blob ''h1'')]"

definition tree_c2 :: gtree where
  "tree_c2 = Tree ''t3'' [(''notes'', Tree ''t4'' [(''a.md'', Blob ''h3''), (''b.md'', Blob ''h4'')]),
                          (''readme.md'', Blob ''h1'')]"

definition sample_world :: "ReadCommitResult list \<Rightarrow> row list \<Rightarrow> sample_repo world" where
  "sample_world cs rows =
     \<lparr>repo = \<lparr>repo_commits = cs, repo_matrix = rows,
              repo_trees = [(''c1'', tree_c1), (''c2'', tree_c2)], repo_branch = ''main''\<rparr>,
      state = PluginState_status, displayed = [], lastUpdate = 0, console = []\<rparr>"

section \<open>Properties of the callback\<close>

lemma diff_map_root: "diff_map ''.'' A B = (None, [])"
  by (simp add: diff_map_def)

lemma diff_map_Some:
  "fst (diff_map filepath A B) = Some r \<Longrightarrow>
     filepath \<noteq> ''.'' \<and> map_option etype A \<noteq> Some Type_tree
     \<and> map_option etype B \<noteq> Some Type_tree \<and> diff_path r = ''/'' @ filepath"
  by (auto simp: diff_map_def Let_def split: if_splits)

section \<open>Properties of the walk\<close>

lemma fst_walk:
  "fst (walk mp filepath A B)
     = reduce (fst (mp filepath (map_option entry A) (map_option entry B)))
         (fst (iterate mp filepath (unionOfIterators (readdir A) (readdir B))))"
  by (simp add: walk.simps case_prod_beta)

lemma fst_iterate_Cons:
  "fst (iterate mp dir ((name, a, b) # rest))
     = fst (walk mp (join dir name) a b) @ fst (iterate mp dir rest)"
  by (simp add: case_prod_beta)

lemma union_left: "(n, Some a, b) \<in> set (unionOfIterators xs ys) \<Longrightarrow> (n, a) \<in> set xs"
  by (induction xs ys rule: unionOfIterators.induct) (auto split: if_splits)

lemma union_right: "(n, a, Some b) \<in> set (unionOfIterators xs ys) \<Longrightarrow> (n, b) \<in> set ys"
  by (induction xs ys rule: unionOfIterators.induct) (auto split: if_splits)

lemma union_not_both_absent: "(n, None, None) \<notin> set (unionOfIterators xs ys)"
  by (induction xs ys rule: unionOfIterators.induct) auto

lemma files_in_member: "(n, k) \<in> set kids \<Longrightarrow> set (files (join dir n) k) \<subseteq> set (files_in dir kids)"
  by (induction kids) auto

lemma files_child:
  "(n, k) \<in> set (readdir A) \<Longrightarrow> set (files (join filepath n) k) \<subseteq> files_opt filepath A"
  by (cases A rule: readdir.cases) (auto simp: files_opt_def dest: files_in_member)

lemma walk_leaf_paths:
  "e \<in> set (fst (walk diff_map filepath A B)) \<Longrightarrow> A \<noteq> None \<or> B \<noteq> None \<Longrightarrow>
     \<exists>p. p \<in> files_opt filepath A \<union> files_opt filepath B \<and> diff_path e = ''/'' @ p"
  "e \<in> set (fst (iterate diff_map dir xs)) \<Longrightarrow> (\<And>n. (n, None, None) \<notin> set xs) \<Longrightarrow>
     \<exists>n a b p. (n, a, b) \<in> set xs \<and> p \<in> files_opt (join dir n) a \<union> files_opt (join dir n) b
        \<and> diff_path e = ''/'' @ p"
proof (induction diff_map filepath A B and diff_map dir xs arbitrary: e and e rule: walk_iterate.induct)
  case (1 filepath A B)
  obtain parent l1 where p: "diff_map filepath (map_option entry A) (map_option entry B) = (parent, l1)"
    by (cases "diff_map filepath (map_option entry A) (map_option entry B)")
  let ?U = "unionOfIterators (readdir A) (readdir B)"
  from "1.prems"(1) consider
      (parent) "parent = Some e"
    | (child) "e \<in> set (fst (iterate diff_map filepath ?U))"
    by (auto simp: fst_walk p reduce_def split: option.splits)
  then show ?case
  proof cases
    case parent
    with p have r: "fst (diff_map filepath (map_option entry A) (map_option entry B)) = Some e"
      by simp
    from diff_map_Some [OF r] have
      dp: "diff_path e = ''/'' @ filepath"
      and a: "map_option etype (map_option entry A) \<noteq> Some Type_tree"
      and b: "map_option etype (map_option entry B) \<noteq> Some Type_tree"
      by simp_all
    have "filepath \<in> files_opt filepath A \<union> files_opt filepath B"
    proof (cases A)
      case None
      with "1.prems"(2) obtain t where B: "B = Some t" by auto
      with b show ?thesis by (cases t) (auto simp: files_opt_def)
    next
      case (Some t)
      with a show ?thesis by (cases t) (auto simp: files_opt_def)
    qed
    with dp show ?thesis by blast
  next
    case child
    from "1.hyps" [OF refl p [symmetric] child] union_not_both_absent
    obtain n a b q where m: "(n, a, b) \<in> set ?U"
      and q: "q \<in> files_opt (join filepath n) a \<union> files_opt (join filepath n) b"
      and dp: "diff_path e = ''/'' @ q"
      by blast
    from q have "q \<in> files_opt filepath A \<union> files_opt filepath B"
    proof
      assume qa: "q \<in> files_opt (join filepath n) a"
      then obtain k where a: "a = Some k" by (cases a) (auto simp: files_opt_def)
      from m a have "(n, k) \<in> set (readdir A)" by (auto dest: union_left)
      from files_child [OF this] qa a show ?thesis by (auto simp: files_opt_def)
    next
      assume qb: "q \<in> files_opt (join filepath n) b"
      then obtain k where b: "b = Some k" by (cases b) (auto simp: files_opt_def)
      from m b have "(n, k) \<in> set (readdir B)" by (auto dest: union_right)
      from files_child [OF this] qb b show ?thesis by (auto simp: files_opt_def)
    qed
    with dp show ?thesis by blast
  qed
next
  case (2 filepath)
  then show ?case by simp
next
  case (3 filepath name a b rest)
  obtain r1 l1 where w: "walk diff_map (join filepath name) a b = (r1, l1)"
    by (cases "walk diff_map (join filepath name) a b")
  from "3.prems"(1) consider
      (head) "e \<in> set (fst (walk diff_map (join filepath name) a b))"
    | (tail) "e \<in> set (fst (iterate diff_map filepath rest))"
    by (auto simp: case_prod_beta)
  then show ?case
  proof cases
    case head
    from "3.prems"(2) [of name] have "a \<noteq> None \<or> b \<noteq> None" by auto
    from "3.hyps"(1) [OF head this] show ?thesis by auto
  next
    case tail
    have "\<And>n. (n, None, None) \<notin> set rest" using "3.prems"(2) by auto
    from "3.hyps"(2) [OF refl w [symmetric] tail this] show ?thesis by auto
  qed
qed

lemma union_same: "unionOfIterators kids kids = map (\<lambda>(n, k). (n, Some k, Some k)) kids"
  by (induction kids) auto

lemma join_not_root: "dir \<noteq> ''.'' \<Longrightarrow> join dir name \<noteq> ''.''"
  by (cases dir) (auto simp: join_def)

lemma walk_same_ref:
  "filepath \<noteq> ''.'' \<Longrightarrow>
     walk diff_map filepath (Some t) (Some t)
       = (map (\<lambda>p. \<lparr>diff_path = ''/'' @ p, diff_type = Equal\<rparr>) (files filepath t), [])"
  "(\<forall>n \<in> fst ` set kids. join dir n \<noteq> ''.'') \<Longrightarrow>
     iterate diff_map dir (map (\<lambda>(n, k). (n, Some k, Some k)) kids)
       = (map (\<lambda>p. \<lparr>diff_path = ''/'' @ p, diff_type = Equal\<rparr>) (files_in dir kids), [])"
proof (induction filepath t and dir kids rule: files_files_in.induct)
  case (1 filepath h)
  then show ?case by (simp add: walk.simps diff_map_def reduce_def)
next
  case (2 filepath h kids)
  then show ?case
    by (simp add: walk.simps diff_map_def reduce_def union_same join_not_root)
next
  case (3 dir)
  show ?case by simp
next
  case (4 dir name t rest)
  then show ?case by simp
qed

lemma walk_root_same_ref:
  assumes "''.'' \<notin> fst ` set kids"
  shows "walk diff_map ''.'' (Some (Tree h kids)) (Some (Tree h kids))
       = (map (\<lambda>p. \<lparr>diff_path = ''/'' @ p, diff_type = Equal\<rparr>) (files ''.'' (Tree h kids)), [])"
proof -
  have "\<forall>n \<in> fst ` set kids. join ''.'' n \<noteq> ''.''"
    using assms by (force simp: join_def)
  from walk_same_ref(2) [OF this] show ?thesis
    by (simp add: walk.simps diff_map_def reduce_def union_same)
qed

lemma map_filter_append:
  "List.map_filter f (xs @ ys) = List.map_filter f xs @ List.map_filter f ys"
  by (simp add: map_filter_def)

lemma walk_visits:
  "fst (walk mp filepath A B)
     = List.map_filter (\<lambda>(p, a, b). fst (mp p a b))
         (fst (walk (\<lambda>filepath a b. (Some (filepath, a, b), [])) filepath A B))"
  "fst (iterate mp dir xs)
     = List.map_filter (\<lambda>(p, a, b). fst (mp p a b))
         (fst (iterate (\<lambda>filepath a b. (Some (filepath, a, b), [])) dir xs))"
proof (induction mp filepath A B and mp dir xs rule: walk_iterate.induct)
  case (1 mp filepath A B)
  obtain parent l1 where p: "mp filepath (map_option entry A) (map_option entry B) = (parent, l1)"
    by (cases "mp filepath (map_option entry A) (map_option entry B)")
  from "1" [OF refl p [symmetric]] show ?case
    by (simp add: fst_walk p reduce_def split: option.splits)
next
  case (2 mp filepath)
  show ?case by simp
next
  case (3 mp filepath name a b rest)
  obtain r1 l1 where w: "walk mp (join filepath name) a b = (r1, l1)"
    by (cases "walk mp (join filepath name) a b")
  from "3.IH"(1) "3.IH"(2) [OF refl w [symmetric]] show ?case
    by (simp add: case_prod_beta map_filter_append)
qed

lemma emitted_was_visited:
  assumes "e \<in> set (fst (walk diff_map ''.'' (Some A) (Some B)))"
  shows "\<exists>filepath a b. (filepath, a, b) \<in> set (visited A B) \<and> diff_path e = ''/'' @ filepath
           \<and> filepath \<noteq> ''.'' \<and> map_option etype a \<noteq> Some Type_tree
           \<and> map_option etype b \<noteq> Some Type_tree"
proof -
  from assms obtain v where v: "v \<in> set (visited A B)"
    and e: "(case v of (p, a, b) \<Rightarrow> fst (diff_map p a b)) = Some e"
    unfolding visited_def walk_visits(1) [of diff_map] map_filter_def by auto
  obtain p a b where "v = (p, a, b)" by (cases v)
  with v e diff_map_Some [of p a b e] show ?thesis by auto
qed

lemma diff_run:
  assumes "git_TREE g refA (repo w) = Inr A" and "git_TREE g refB (repo w) = Inr B"
  shows "diff g refA refB w =
          (Inr (fst (walk diff_map ''.'' (Some A) (Some B))),
           w\<lparr>console := console w @ snd (walk diff_map ''.'' (Some A) (Some B))\<rparr>)"
  using assms by (simp add: diff_def awaitS_def query_def case_prod_beta)

lemma sample_TREE:
  "git_TREE sample_git ''c1'' (repo (sample_world cs rows)) = Inr tree_c1"
  "git_TREE sample_git ''c2'' (repo (sample_world cs rows)) = Inr tree_c2"
  by (simp_all add: sample_git_def sample_world_def)

lemma walk_c1_c2:
  "walk diff_map ''.'' (Some tree_c1) (Some tree_c2)
     = ([\<lparr>diff_path = ''/notes/a.md'', diff_type = Modify\<rparr>,
         \<lparr>diff_path = ''/notes/b.md'', diff_type = Remove\<rparr>,
         \<lparr>diff_path = ''/readme.md'', diff_type = Equal\<rparr>], [])"
  by (simp add: tree_c1_def tree_c2_def walk.simps diff_map_def join_def reduce_def)







section \<open>Claims about the tree diff\<close>

text \<open>
  C1. The claim: at a leaf where only side A has an object id the entry's kind is
  \<open>Remove\<close>, and where only side B has one it is \<open>Add\<close>. The code assigns the two
  kinds the other way round: \<open>Aoid === undefined\<close> (only B present) gives
  \<open>remove\<close>, \<open>Boid === undefined\<close> (only A present) gives \<open>add\<close>. Evaluated on
  \<open>notes/b.md\<close> of the spec's example, which only the second commit holds, and on the
  whole example run through \<open>diff\<close>.
\<close>

theorem diff_one_sided_kinds_swapped:
  "diff_map ''notes/b.md'' None (Some \<lparr>etype = Type_blob, eoid = ''h4''\<rparr>)
     = (Some \<lparr>diff_path = ''/notes/b.md'', diff_type = Remove\<rparr>, []) \<and>
   diff_map ''notes/b.md'' (Some \<lparr>etype = Type_blob, eoid = ''h4''\<rparr>) None
     = (Some \<lparr>diff_path = ''/notes/b.md'', diff_type = Add\<rparr>, []) \<and>
   fst (diff sample_git ''c1'' ''c2'' (sample_world [] []))
     = Inr [\<lparr>diff_path = ''/notes/a.md'', diff_type = Modify\<rparr>,
            \<lparr>diff_path = ''/notes/b.md'', diff_type = Remove\<rparr>,
            \<lparr>diff_path = ''/readme.md'', diff_type = Equal\<rparr>]"
  by (simp add: diff_run [OF sample_TREE] walk_c1_c2) (simp add: diff_map_def)



text \<open>
  C7. When a reference resolves to a tree (whose top-level names are not the root's own
  name \<open>.\<close>), \<open>diff\<close> of the reference with itself returns, for every leaf path of the
  tree and in the tree's order, one entry of kind \<open>Equal\<close>, and nothing else; it writes
  nothing to the console.
\<close>

theorem diff_same_ref_all_equal:
  assumes "git_TREE g X (repo w) = Inr (Tree h kids)" and "''.'' \<notin> fst ` set kids"
  shows "diff g X X w =
           (Inr (map (\<lambda>p. \<lparr>diff_path = ''/'' @ p, diff_type = Equal\<rparr>) (files ''.'' (Tree h kids))), w)"
  using assms(1) by (simp add: diff_run [OF assms(1) assms(1)] walk_root_same_ref [OF assms(2)])

theorem diff_same_ref_all_equal_witness:
  "diff sample_git ''c2'' ''c2'' (sample_world [] []) =
     (Inr [\<lparr>diff_path = ''/notes/a.md'', diff_type = Equal\<rparr>,
           \<lparr>diff_path = ''/notes/b.md'', diff_type = Equal\<rparr>,
           \<lparr>diff_path = ''/readme.md'', diff_type = Equal\<rparr>], sample_world [] [])"
proof -
  have t: "git_TREE sample_git ''c2'' (repo (sample_world [] []))
         = Inr (Tree ''t3'' [(''notes'', Tree ''t4'' [(''a.md'', Blob ''h3''), (''b.md'', Blob ''h4'')]),
                             (''readme.md'', Blob ''h1'')])"
    by (simp add: sample_TREE tree_c2_def)
  have n: "''.'' \<notin> fst ` set [(''notes'', Tree ''t4'' [(''a.md'', Blob ''h3''), (''b.md'', Blob ''h4'')]),
                             (''readme.md'', Blob ''h1'')]"
    by simp
  from diff_same_ref_all_equal [OF t n] show ?thesis by (simp add: join_def)
qed

text \<open>
  C8. When both references resolve, \<open>diff\<close> returns, and every entry it returns
  belongs to a visited path that is not the root and at which neither side is a
  directory; the path is a leaf path of one of the two trees.
\<close>

theorem diff_emits_only_leaves:
  assumes "git_TREE g refA (repo w) = Inr A" and "git_TREE g refB (repo w) = Inr B"
  shows "\<exists>entries. fst (diff g refA refB w) = Inr entries \<and>
           (\<forall>e \<in> set entries.
              (\<exists>filepath a b. (filepath, a, b) \<in> set (visited A B)
                 \<and> diff_path e = ''/'' @ filepath \<and> filepath \<noteq> ''.''
                 \<and> map_option etype a \<noteq> Some Type_tree \<and> map_option etype b \<noteq> Some Type_tree)
              \<and> (\<exists>p. p \<in> set (files ''.'' A) \<union> set (files ''.'' B) \<and> diff_path e = ''/'' @ p))"
proof -
  have "\<exists>p. p \<in> set (files ''.'' A) \<union> set (files ''.'' B) \<and> diff_path e = ''/'' @ p"
    if "e \<in> set (fst (walk diff_map ''.'' (Some A) (Some B)))" for e
    using walk_leaf_paths(1) [OF that] by (simp add: files_opt_def)
  then show ?thesis
    using emitted_was_visited [of _ A B] by (simp add: diff_run [OF assms])
qed

theorem diff_emits_only_leaves_witness:
  "fst (diff sample_git ''c1'' ''c2'' (sample_world [] []))
     = Inr [\<lparr>diff_path = ''/notes/a.md'', diff_type = Modify\<rparr>,
            \<lparr>diff_path = ''/notes/b.md'', diff_type = Remove\<rparr>,
            \<lparr>diff_path = ''/readme.md'', diff_type = Equal\<rparr>] \<and>
   (\<exists>filepath a b. (filepath, a, b) \<in> set (visited tree_c1 tree_c2)
       \<and> ''/notes/b.md'' = ''/'' @ filepath \<and> filepath \<noteq> ''.''
       \<and> map_option etype a \<noteq> Some Type_tree \<and> map_option etype b \<noteq> Some Type_tree) \<and>
   (\<exists>p. p \<in> set (files ''.'' tree_c1) \<union> set (files ''.'' tree_c2) \<and> ''/notes/b.md'' = ''/'' @ p)"
proof -
  let ?run = "[\<lparr>diff_path = ''/notes/a.md'', diff_type = Modify\<rparr>,
               \<lparr>diff_path = ''/notes/b.md'', diff_type = Remove\<rparr>,
               \<lparr>diff_path = ''/readme.md'', diff_type = Equal\<rparr>]"
  have run: "fst (diff sample_git ''c1'' ''c2'' (sample_world [] [])) = Inr ?run"
    by (simp add: diff_run [OF sample_TREE] walk_c1_c2)
  from diff_emits_only_leaves [OF sample_TREE [of "[]" "[]"]] run
  have "\<forall>e \<in> set ?run.
          (\<exists>filepath a b. (filepath, a, b) \<in> set (visited tree_c1 tree_c2)
             \<and> diff_path e = ''/'' @ filepath \<and> filepath \<noteq> ''.''
             \<and> map_option etype a \<noteq> Some Type_tree \<and> map_option etype b \<noteq> Some Type_tree)
          \<and> (\<exists>p. p \<in> set (files ''.'' tree_c1) \<union> set (files ''.'' tree_c2) \<and> diff_path e = ''/'' @ p)"
    by simp
  then have "(\<exists>filepath a b. (filepath, a, b) \<in> set (visited tree_c1 tree_c2)
             \<and> diff_path \<lparr>diff_path = ''/notes/b.md'', diff_type = Remove\<rparr> = ''/'' @ filepath
             \<and> filepath \<noteq> ''.''
             \<and> map_option etype a \<noteq> Some Type_tree \<and> map_option etype b \<noteq> Some Type_tree)
          \<and> (\<exists>p. p \<in> set (files ''.'' tree_c1) \<union> set (files ''.'' tree_c2)
             \<and> diff_path \<lparr>diff_path = ''/notes/b.md'', diff_type = Remove\<rparr> = ''/'' @ p)"
    by (rule bspec) simp
  with run show ?thesis by simp
qed

section \<open>Properties of the status table\<close>

lemma toString_digit: "n < 10 \<Longrightarrow> toString n = [digit n]"
  by (subst toString.simps) simp

lemma toString_nonempty: "1 \<le> length (toString n)"
  by (subst toString.simps) simp

lemma toString_long: "\<not> n < 10 \<Longrightarrow> 2 \<le> length (toString n)"
  using toString_nonempty [of "n div 10"] by (subst toString.simps) simp

lemma toString_small:
  "toString 0 = ''0''" "toString 1 = ''1''" "toString 2 = ''2''" "toString 3 = ''3''"
  by (subst toString.simps, simp add: digit_def)+

lemma key_digits:
  assumes "toString a @ toString b @ toString c = [x, y, z]"
  shows "a < 10 \<and> b < 10 \<and> c < 10 \<and> x = digit a \<and> y = digit b \<and> z = digit c"
proof -
  from assms have "length (toString a) + length (toString b) + length (toString c) = 3"
    by (metis length_append add.assoc length_Cons list.size(3) numeral_3_eq_3)
  with toString_nonempty [of a] toString_nonempty [of b] toString_nonempty [of c]
    toString_long [of a] toString_long [of b] toString_long [of c]
  have small: "a < 10" "b < 10" "c < 10"
    by linarith+
  with assms show ?thesis by (simp add: toString_digit)
qed

lemma digit_values:
  assumes "a < 10"
  shows "(digit a = CHR ''0'') = (a = 0)" "(digit a = CHR ''1'') = (a = 1)"
    "(digit a = CHR ''2'') = (a = 2)" "(digit a = CHR ''3'') = (a = 3)"
proof -
  from assms have "a \<in> {0, 1, 2, 3, 4, 5, 6, 7, 8, 9}"
    by (simp only: insert_iff empty_iff) arith
  then show "(digit a = CHR ''0'') = (a = 0)" "(digit a = CHR ''1'') = (a = 1)"
    "(digit a = CHR ''2'') = (a = 2)" "(digit a = CHR ''3'') = (a = 3)"
    by (auto simp: digit_def)
qed

lemma map_of_key_length:
  "map_of xs k = Some v \<Longrightarrow> (\<forall>p \<in> set xs. length (fst p) = n) \<Longrightarrow> length k = n"
  by (drule map_of_SomeD) force

lemma indexes_Some:
  assumes "indexes (toString a @ toString b @ toString c) = Some code"
  shows "(a, b, c, code) \<in>
     {(0, 0, 0, ''''), (0, 0, 3, ''AD''), (0, 2, 0, ''??''), (0, 2, 2, ''A''), (0, 2, 3, ''AM''),
      (1, 0, 0, ''D ''), (1, 0, 1, '' D''), (1, 0, 3, ''MD''), (1, 1, 0, ''D ??''), (1, 1, 1, ''''),
      (1, 2, 0, ''D ??''), (1, 2, 1, '' M''), (1, 2, 2, ''M ''), (1, 2, 3, ''MM'')}"
proof -
  let ?key = "toString a @ toString b @ toString c"
  from assms have "(?key, code) \<in> set
    [(''000'', ''''), (''003'', ''AD''), (''020'', ''??''), (''022'', ''A''), (''023'', ''AM''),
     (''100'', ''D ''), (''101'', '' D''), (''103'', ''MD''), (''110'', ''D ??''), (''111'', ''''),
     (''120'', ''D ??''), (''121'', '' M''), (''122'', ''M ''), (''123'', ''MM'')]"
    unfolding indexes_def by (rule map_of_SomeD)
  then have m: "(?key, code) \<in>
     {(''000'', ''''), (''003'', ''AD''), (''020'', ''??''), (''022'', ''A''), (''023'', ''AM''),
      (''100'', ''D ''), (''101'', '' D''), (''103'', ''MD''), (''110'', ''D ??''), (''111'', ''''),
      (''120'', ''D ??''), (''121'', '' M''), (''122'', ''M ''), (''123'', ''MM'')}"
    by simp
  from assms have "length ?key = 3"
    unfolding indexes_def by (rule map_of_key_length) simp
  then obtain x y z where k: "?key = [x, y, z]"
    by (auto simp only: length_Suc_conv numeral_3_eq_3 length_0_conv)
  from key_digits [OF k] have d: "a < 10" "b < 10" "c < 10" "x = digit a" "y = digit b" "z = digit c"
    by simp_all
  from m show ?thesis
    unfolding k d(4-6)
    by (simp add: digit_values [OF d(1)] digit_values [OF d(2)] digit_values [OF d(3)])
qed

lemma path_getFileStatusResult: "path (getFileStatusResult r) = FILE r"
  by (simp add: getFileStatusResult_def)

lemma index_getFileStatusResult:
  "index (getFileStatusResult r) = indexes (toString (HEAD r) @ toString (WORKDIR r) @ toString (STAGE r))"
  by (simp add: getFileStatusResult_def)

lemma status_run:
  "git_statusMatrix g (repo w) = Inr rows \<Longrightarrow>
   status g w =
     (Inr \<lparr>changed = map getFileStatusResult (filter (\<lambda>row. HEAD row \<noteq> WORKDIR row) rows),
           staged = map FILE (filter (\<lambda>row. STAGE row = 3 \<or> STAGE row = 2) rows)\<rparr>,
      setState PluginState_status w)"
  by (simp add: status_def catch_display_def awaitS_def query_def Let_def setState_def)

lemma sample_statusMatrix:
  "git_statusMatrix sample_git (repo (sample_world cs rows)) = Inr rows"
  by (simp add: sample_git_def sample_world_def)

section \<open>Claims about the status\<close>

text \<open>
  C2. \<open>getFileStatusResult\<close> gives each of the fourteen listed triples its listed code,
  whatever the path, and gives no other triple of numbers a code: a row that gets a
  code is one of the fourteen, with that code.
\<close>

theorem status_code_table:
  "index (getFileStatusResult \<lparr>FILE = f, HEAD = 0, WORKDIR = 0, STAGE = 0\<rparr>) = Some ''''
   \<and> index (getFileStatusResult \<lparr>FILE = f, HEAD = 0, WORKDIR = 0, STAGE = 3\<rparr>) = Some ''AD''
   \<and> index (getFileStatusResult \<lparr>FILE = f, HEAD = 0, WORKDIR = 2, STAGE = 0\<rparr>) = Some ''??''
   \<and> index (getFileStatusResult \<lparr>FILE = f, HEAD = 0, WORKDIR = 2, STAGE = 2\<rparr>) = Some ''A''
   \<and> index (getFileStatusResult \<lparr>FILE = f, HEAD = 0, WORKDIR = 2, STAGE = 3\<rparr>) = Some ''AM''
   \<and> index (getFileStatusResult \<lparr>FILE = f, HEAD = 1, WORKDIR = 0, STAGE = 0\<rparr>) = Some ''D ''
   \<and> index (getFileStatusResult \<lparr>FILE = f, HEAD = 1, WORKDIR = 0, STAGE = 1\<rparr>) = Some '' D''
   \<and> index (getFileStatusResult \<lparr>FILE = f, HEAD = 1, WORKDIR = 0, STAGE = 3\<rparr>) = Some ''MD''
   \<and> index (getFileStatusResult \<lparr>FILE = f, HEAD = 1, WORKDIR = 1, STAGE = 0\<rparr>) = Some ''D ??''
   \<and> index (getFileStatusResult \<lparr>FILE = f, HEAD = 1, WORKDIR = 1, STAGE = 1\<rparr>) = Some ''''
   \<and> index (getFileStatusResult \<lparr>FILE = f, HEAD = 1, WORKDIR = 2, STAGE = 0\<rparr>) = Some ''D ??''
   \<and> index (getFileStatusResult \<lparr>FILE = f, HEAD = 1, WORKDIR = 2, STAGE = 1\<rparr>) = Some '' M''
   \<and> index (getFileStatusResult \<lparr>FILE = f, HEAD = 1, WORKDIR = 2, STAGE = 2\<rparr>) = Some ''M ''
   \<and> index (getFileStatusResult \<lparr>FILE = f, HEAD = 1, WORKDIR = 2, STAGE = 3\<rparr>) = Some ''MM''
   \<and> (index (getFileStatusResult r) = Some code \<longrightarrow>
        (HEAD r, WORKDIR r, STAGE r, code) \<in>
          {(0, 0, 0, ''''), (0, 0, 3, ''AD''), (0, 2, 0, ''??''), (0, 2, 2, ''A''),
           (0, 2, 3, ''AM''), (1, 0, 0, ''D ''), (1, 0, 1, '' D''), (1, 0, 3, ''MD''),
           (1, 1, 0, ''D ??''), (1, 1, 1, ''''), (1, 2, 0, ''D ??''), (1, 2, 1, '' M''),
           (1, 2, 2, ''M ''), (1, 2, 3, ''MM'')})"
proof -
  have listed: "index (getFileStatusResult \<lparr>FILE = f, HEAD = h, WORKDIR = w, STAGE = s\<rparr>)
      = indexes (toString h @ toString w @ toString s)" for h w s
    by (simp add: index_getFileStatusResult)
  have other: "index (getFileStatusResult r) = Some code \<longrightarrow>
        (HEAD r, WORKDIR r, STAGE r, code) \<in>
          {(0, 0, 0, ''''), (0, 0, 3, ''AD''), (0, 2, 0, ''??''), (0, 2, 2, ''A''),
           (0, 2, 3, ''AM''), (1, 0, 0, ''D ''), (1, 0, 1, '' D''), (1, 0, 3, ''MD''),
           (1, 1, 0, ''D ??''), (1, 1, 1, ''''), (1, 2, 0, ''D ??''), (1, 2, 1, '' M''),
           (1, 2, 2, ''M ''), (1, 2, 3, ''MM'')}"
  proof
    assume "index (getFileStatusResult r) = Some code"
    then show "(HEAD r, WORKDIR r, STAGE r, code) \<in>
          {(0, 0, 0, ''''), (0, 0, 3, ''AD''), (0, 2, 0, ''??''), (0, 2, 2, ''A''),
           (0, 2, 3, ''AM''), (1, 0, 0, ''D ''), (1, 0, 1, '' D''), (1, 0, 3, ''MD''),
           (1, 1, 0, ''D ??''), (1, 1, 1, ''''), (1, 2, 0, ''D ??''), (1, 2, 1, '' M''),
           (1, 2, 2, ''M ''), (1, 2, 3, ''MM'')}"
      unfolding index_getFileStatusResult by (rule indexes_Some)
  qed
  show ?thesis
    unfolding listed toString_small
    by (intro conjI other) (simp_all add: indexes_def)
qed

theorem status_code_table_witness:
  "index (getFileStatusResult \<lparr>FILE = ''a.md'', HEAD = 1, WORKDIR = 2, STAGE = 3\<rparr>) = Some ''MM''
   \<and> (1::nat, 2::nat, 3::nat, ''MM'') \<in>
          {(0, 0, 0, ''''), (0, 0, 3, ''AD''), (0, 2, 0, ''??''), (0, 2, 2, ''A''),
           (0, 2, 3, ''AM''), (1, 0, 0, ''D ''), (1, 0, 1, '' D''), (1, 0, 3, ''MD''),
           (1, 1, 0, ''D ??''), (1, 1, 1, ''''), (1, 2, 0, ''D ??''), (1, 2, 1, '' M''),
           (1, 2, 2, ''M ''), (1, 2, 3, ''MM'')}"
  using status_code_table [of "''a.md''" "\<lparr>FILE = ''a.md'', HEAD = 1, WORKDIR = 2, STAGE = 3\<rparr>" "''MM''"]
  by simp

text \<open>
  C3, as amended. A row whose key the table does not hold is not an error:
  \<open>getFileStatusResult\<close> returns the row's path with an absent code, and \<open>status\<close>
  returns normally with that result in \<open>changed\<close> when the row's HEAD and worktree
  columns differ.
\<close>

theorem unknown_key_absent_code:
  assumes "indexes (toString (HEAD r) @ toString (WORKDIR r) @ toString (STAGE r)) = None"
    and "git_statusMatrix g (repo w) = Inr rows"
    and "r \<in> set rows"
    and "HEAD r \<noteq> WORKDIR r"
  shows "getFileStatusResult r = \<lparr>index = None, path = FILE r\<rparr>
         \<and> (\<exists>st. fst (status g w) = Inr st \<and> \<lparr>index = None, path = FILE r\<rparr> \<in> set (changed st))"
proof -
  from assms(1) have c: "getFileStatusResult r = \<lparr>index = None, path = FILE r\<rparr>"
    by (simp add: getFileStatusResult_def)
  from assms(3,4) have "getFileStatusResult r
      \<in> set (map getFileStatusResult (filter (\<lambda>row. HEAD row \<noteq> WORKDIR row) rows))"
    by simp
  with c show ?thesis by (simp add: status_run [OF assms(2)])
qed

theorem unknown_key_absent_code_witness:
  "getFileStatusResult \<lparr>FILE = ''f'', HEAD = 1, WORKDIR = 0, STAGE = 2\<rparr> = \<lparr>index = None, path = ''f''\<rparr>
   \<and> (\<exists>st. fst (status sample_git (sample_world [] [\<lparr>FILE = ''f'', HEAD = 1, WORKDIR = 0, STAGE = 2\<rparr>])) = Inr st
          \<and> \<lparr>index = None, path = ''f''\<rparr> \<in> set (changed st))"
proof -
  have k: "indexes (toString (HEAD \<lparr>FILE = ''f'', HEAD = 1, WORKDIR = 0, STAGE = 2\<rparr>)
              @ toString (WORKDIR \<lparr>FILE = ''f'', HEAD = 1, WORKDIR = 0, STAGE = 2\<rparr>)
              @ toString (STAGE \<lparr>FILE = ''f'', HEAD = 1, WORKDIR = 0, STAGE = 2\<rparr>)) = None"
    by (simp add: toString_small indexes_def)
  have m: "\<lparr>FILE = ''f'', HEAD = 1, WORKDIR = 0, STAGE = 2\<rparr>
             \<in> set [\<lparr>FILE = ''f'', HEAD = 1, WORKDIR = 0, STAGE = 2\<rparr>]"
    by simp
  have d: "HEAD \<lparr>FILE = ''f'', HEAD = 1, WORKDIR = 0, STAGE = 2\<rparr>
             \<noteq> WORKDIR \<lparr>FILE = ''f'', HEAD = 1, WORKDIR = 0, STAGE = 2\<rparr>"
    by simp
  from unknown_key_absent_code [OF k sample_statusMatrix m d] show ?thesis by simp
qed

text \<open>
  C3 as the claim states it, that classifying such a row fails with an error, does not
  hold: for the row \<open>[f, 1, 0, 2]\<close>, whose key \<open>102\<close> the table does not hold,
  \<open>status\<close> returns a result, and the row's code in it is absent.
\<close>

theorem unknown_key_counterexample:
  "indexes ''102'' = None \<and>
   fst (status sample_git (sample_world [] [\<lparr>FILE = ''f'', HEAD = 1, WORKDIR = 0, STAGE = 2\<rparr>]))
     = Inr \<lparr>changed = [\<lparr>index = None, path = ''f''\<rparr>], staged = [''f'']\<rparr>"
  by (simp add: status_run [OF sample_statusMatrix] getFileStatusResult_def toString_small indexes_def)

text \<open>
  C4. When the status matrix can be read, \<open>status\<close> returns; the paths of
  \<open>changed\<close> are exactly the paths of the rows whose HEAD and worktree columns differ,
  and \<open>staged\<close> holds exactly the paths of the rows whose stage column is 2 or 3 (as
  lists in the rows' order, and so as sets).
\<close>

theorem status_changed_and_staged:
  assumes "git_statusMatrix g (repo w) = Inr rows"
  shows "\<exists>st. fst (status g w) = Inr st
     \<and> map path (changed st) = map FILE (filter (\<lambda>r. HEAD r \<noteq> WORKDIR r) rows)
     \<and> staged st = map FILE (filter (\<lambda>r. STAGE r = 2 \<or> STAGE r = 3) rows)
     \<and> set (map path (changed st)) = {FILE r | r. r \<in> set rows \<and> HEAD r \<noteq> WORKDIR r}
     \<and> set (staged st) = {FILE r | r. r \<in> set rows \<and> (STAGE r = 2 \<or> STAGE r = 3)}"
proof -
  let ?st = "\<lparr>changed = map getFileStatusResult (filter (\<lambda>row. HEAD row \<noteq> WORKDIR row) rows),
             staged = map FILE (filter (\<lambda>row. STAGE row = 3 \<or> STAGE row = 2) rows)\<rparr>"
  have run: "fst (status g w) = Inr ?st"
    by (simp add: status_run [OF assms])
  have c: "map path (changed ?st) = map FILE (filter (\<lambda>r. HEAD r \<noteq> WORKDIR r) rows)"
    by (simp add: path_getFileStatusResult comp_def)
  have s: "staged ?st = map FILE (filter (\<lambda>r. STAGE r = 2 \<or> STAGE r = 3) rows)"
    by (simp add: disj_commute)
  have cs: "set (map path (changed ?st)) = {FILE r | r. r \<in> set rows \<and> HEAD r \<noteq> WORKDIR r}"
    unfolding c by auto
  have ss: "set (staged ?st) = {FILE r | r. r \<in> set rows \<and> (STAGE r = 2 \<or> STAGE r = 3)}"
    unfolding s by auto
  from run c s cs ss show ?thesis by blast
qed

theorem status_changed_and_staged_witness:
  "\<exists>st. fst (status sample_git (sample_world []
            [\<lparr>FILE = ''new.md'', HEAD = 0, WORKDIR = 2, STAGE = 0\<rparr>,
             \<lparr>FILE = ''gone.md'', HEAD = 1, WORKDIR = 0, STAGE = 1\<rparr>,
             \<lparr>FILE = ''same.md'', HEAD = 1, WORKDIR = 1, STAGE = 1\<rparr>,
             \<lparr>FILE = ''edit.md'', HEAD = 1, WORKDIR = 2, STAGE = 2\<rparr>])) = Inr st
     \<and> map path (changed st) = [''new.md'', ''gone.md'', ''edit.md'']
     \<and> staged st = [''edit.md'']"
  using status_changed_and_staged [OF sample_statusMatrix, of "[]"
            "[\<lparr>FILE = ''new.md'', HEAD = 0, WORKDIR = 2, STAGE = 0\<rparr>,
             \<lparr>FILE = ''gone.md'', HEAD = 1, WORKDIR = 0, STAGE = 1\<rparr>,
             \<lparr>FILE = ''same.md'', HEAD = 1, WORKDIR = 1, STAGE = 1\<rparr>,
             \<lparr>FILE = ''edit.md'', HEAD = 1, WORKDIR = 2, STAGE = 2\<rparr>]"]
  by auto

section \<open>Claims about the current commit, the count and the commit\<close>

lemma branchInfo_sample:
  "branchInfo sample_git False (sample_world cs rows)
   = (Inr \<lparr>current = ''main'', tracking = ''origin'', branches = [''main''], remoteBranches = None\<rparr>,
      sample_world cs rows)"
  by (simp add: branchInfo_def sample_git_def sample_world_def catch_display_def await_def)

lemma sample_log:
  "git_log sample_git depth (repo (sample_world [] rows)) = Inl (NotFoundError ''refs/heads/main'')"
  "git_log sample_git (Suc n) (repo (sample_world (c # cs) rows)) = Inr (c # take n cs)"
  by (simp_all add: sample_git_def sample_world_def)

text \<open>
  C5. \<open>getChangedFiles\<close> is one run of \<open>diff\<close>: when \<open>diff\<close> throws, so does it,
  with the same error; otherwise its result is the number of entries of that run whose
  kind is not \<open>Equal\<close>; and the state it leaves is the state that run leaves.
\<close>

theorem getChangedFiles_counts_diff:
  "getChangedFiles g A B w =
     (case diff g A B w of
        (Inl e, w') \<Rightarrow> (Inl e, w')
      | (Inr entries, w') \<Rightarrow>
          (Inr (length (filter (\<lambda>entry. diff_type entry \<noteq> Equal) entries)), w'))"
  by (simp add: getChangedFiles_def awaitS_def)

text \<open>
  C9. \<open>getCurrentCommit\<close> returns the first commit of \<open>git.log\<close> when the log has one;
  it returns \<open>undefined\<close>, not an error, when the log is empty or fails with a
  \<open>NotFoundError\<close> for the reference of the current branch; any other error of the log
  is thrown again, and an error of \<open>branchInfo\<close>, called while handling the log's
  error, is thrown in its place.
\<close>

theorem getCurrentCommit_cases:
  "(git_log g 1 (repo w) = Inr (c # cs) \<longrightarrow> getCurrentCommit g w = (Inr (Some c), w)) \<and>
   (git_log g 1 (repo w) = Inr [] \<longrightarrow> getCurrentCommit g w = (Inr None, w)) \<and>
   (git_log g 1 (repo w) = Inl e \<and> branchInfo g False w = (Inr b, w')
      \<and> e = NotFoundError (''refs/heads/'' @ current b)
      \<longrightarrow> getCurrentCommit g w = (Inr None, w')) \<and>
   (git_log g 1 (repo w) = Inl e \<and> branchInfo g False w = (Inr b, w')
      \<and> e \<noteq> NotFoundError (''refs/heads/'' @ current b)
      \<longrightarrow> getCurrentCommit g w = (Inl e, w')) \<and>
   (git_log g 1 (repo w) = Inl e \<and> branchInfo g False w = (Inl e', w')
      \<longrightarrow> getCurrentCommit g w = (Inl e', w'))"
  by (auto simp: getCurrentCommit_def awaitS_def split: error.splits)

theorem getCurrentCommit_cases_witness:
  "getCurrentCommit sample_git (sample_world [\<lparr>oid = ''c2''\<rparr>, \<lparr>oid = ''c1''\<rparr>] [])
     = (Inr (Some \<lparr>oid = ''c2''\<rparr>), sample_world [\<lparr>oid = ''c2''\<rparr>, \<lparr>oid = ''c1''\<rparr>] []) \<and>
   getCurrentCommit sample_git (sample_world [] []) = (Inr None, sample_world [] []) \<and>
   getCurrentCommit (sample_git\<lparr>git_log := \<lambda>depth s. Inl (OtherError ''InternalError'')\<rparr>)
       (sample_world [] [])
     = (Inl (OtherError ''InternalError''), sample_world [] []) \<and>
   getCurrentCommit (sample_git\<lparr>git_currentBranch := \<lambda>s. Inl (OtherError ''InternalError'')\<rparr>)
       (sample_world [] [])
     = (Inl (OtherError ''InternalError''),
        displayError (OtherError ''InternalError'') (sample_world [] []))"
proof -
  let ?b = "\<lparr>current = ''main'', tracking = ''origin'', branches = [''main''],
              remoteBranches = None\<rparr>"
  let ?g1 = "sample_git\<lparr>git_log := \<lambda>depth s. Inl (OtherError ''InternalError'')\<rparr>"
  let ?g2 = "sample_git\<lparr>git_currentBranch := \<lambda>s. Inl (OtherError ''InternalError'')\<rparr>"
  have b1: "branchInfo ?g1 False (sample_world [] []) = (Inr ?b, sample_world [] [])"
    by (simp add: branchInfo_def sample_git_def sample_world_def catch_display_def await_def)
  have b2: "branchInfo ?g2 False (sample_world [] [])
      = (Inl (OtherError ''InternalError''),
         displayError (OtherError ''InternalError'') (sample_world [] []))"
    by (simp add: branchInfo_def sample_git_def sample_world_def catch_display_def await_def)
  have l1: "git_log ?g1 1 (repo (sample_world [] [])) = Inl (OtherError ''InternalError'')"
    by simp
  have l2: "git_log ?g2 1 (repo (sample_world [] [])) = Inl (NotFoundError ''refs/heads/main'')"
    by (simp add: sample_git_def sample_world_def)
  from getCurrentCommit_cases [where g = sample_git
        and w = "sample_world [\<lparr>oid = ''c2''\<rparr>, \<lparr>oid = ''c1''\<rparr>] []"
        and c = "\<lparr>oid = ''c2''\<rparr>" and cs = "[]"]
  have 1: "getCurrentCommit sample_git (sample_world [\<lparr>oid = ''c2''\<rparr>, \<lparr>oid = ''c1''\<rparr>] [])
     = (Inr (Some \<lparr>oid = ''c2''\<rparr>), sample_world [\<lparr>oid = ''c2''\<rparr>, \<lparr>oid = ''c1''\<rparr>] [])"
    by (simp add: sample_log)
  from getCurrentCommit_cases [where g = sample_git and w = "sample_world [] []"
        and e = "NotFoundError ''refs/heads/main''" and b = ?b and w' = "sample_world [] []"]
  have 2: "getCurrentCommit sample_git (sample_world [] []) = (Inr None, sample_world [] [])"
    by (simp add: sample_log branchInfo_sample)
  from getCurrentCommit_cases [where g = ?g1 and w = "sample_world [] []"
        and e = "OtherError ''InternalError''" and b = ?b and w' = "sample_world [] []"]
  have 3: "getCurrentCommit ?g1 (sample_world [] [])
     = (Inl (OtherError ''InternalError''), sample_world [] [])"
    using l1 b1 by simp
  from getCurrentCommit_cases [where g = ?g2 and w = "sample_world [] []"
        and e = "NotFoundError ''refs/heads/main''" and e' = "OtherError ''InternalError''"
        and w' = "displayError (OtherError ''InternalError'') (sample_world [] [])"]
  have 4: "getCurrentCommit ?g2 (sample_world [] [])
     = (Inl (OtherError ''InternalError''),
        displayError (OtherError ''InternalError'') (sample_world [] []))"
    using l2 b2 by simp
  from 1 2 3 4 show ?thesis by simp
qed

text \<open>
  C10. Let the first \<open>getCurrentCommit\<close> of \<open>commitAll\<close> return \<open>commitBefore\<close>. With
  no commit before, \<open>commitAll\<close> never returns a count; and when staging, the message,
  the commit and the second \<open>getCurrentCommit\<close> succeed, it returns \<open>undefined\<close> with
  no commit before, and otherwise the result of \<open>getChangedFiles\<close> on the object ids
  of the commit before and the commit after, run in the state after the commit.
\<close>

theorem commitAll_result:
  assumes "getCurrentCommit g (setState PluginState_commit w) = (Inr commitBefore, w1)"
  shows "(commitBefore = None \<longrightarrow> (\<forall>n. fst (commitAll g message w) \<noteq> Inr (Some n))) \<and>
     (git_statusMatrix g (repo w1) = Inr rows
        \<and> add_or_remove_all g rows w1 = (Inr (), w2)
        \<and> (case message of Some m \<Rightarrow> Inr m | None \<Rightarrow> formatCommitMessage g (repo w2))
            = Inr formatMessage
        \<and> git_commit g formatMessage (repo w2) = Inr s3
        \<and> getCurrentCommit g (w2\<lparr>repo := s3\<rparr>) = (Inr commitAfter, w4)
      \<longrightarrow> fst (commitAll g message w) =
            (case commitBefore of
               None \<Rightarrow> Inr None
             | Some c1 \<Rightarrow>
                 (case commitAfter of
                    None \<Rightarrow> Inl TypeError
                  | Some c2 \<Rightarrow>
                      map_sum id Some
                        (fst (getChangedFiles g (oid c1) (oid c2)
                               (w4\<lparr>lastUpdate := Date_now g (repo w4)\<rparr>))))))"
proof (intro conjI impI allI)
  fix n
  assume "commitBefore = None"
  with assms show "fst (commitAll g message w) \<noteq> Inr (Some n)"
    by (auto simp: commitAll_def awaitS_def catch_display_def query_def update_def
        split: option.splits sum.splits prod.splits)
next
  assume "git_statusMatrix g (repo w1) = Inr rows
        \<and> add_or_remove_all g rows w1 = (Inr (), w2)
        \<and> (case message of Some m \<Rightarrow> Inr m | None \<Rightarrow> formatCommitMessage g (repo w2))
            = Inr formatMessage
        \<and> git_commit g formatMessage (repo w2) = Inr s3
        \<and> getCurrentCommit g (w2\<lparr>repo := s3\<rparr>) = (Inr commitAfter, w4)"
  with assms show "fst (commitAll g message w) =
            (case commitBefore of
               None \<Rightarrow> Inr None
             | Some c1 \<Rightarrow>
                 (case commitAfter of
                    None \<Rightarrow> Inl TypeError
                  | Some c2 \<Rightarrow>
                      map_sum id Some
                        (fst (getChangedFiles g (oid c1) (oid c2)
                               (w4\<lparr>lastUpdate := Date_now g (repo w4)\<rparr>)))))"
    by (cases message)
       (auto simp: commitAll_def awaitS_def catch_display_def query_def update_def
          split: option.splits sum.splits prod.splits)
qed

lemmas sample_run =
  sample_git_def sample_world_def setState_def getCurrentCommit_def branchInfo_def
  catch_display_def await_def awaitS_def query_def update_def

theorem commitAll_result_witness:
  "fst (commitAll sample_git None
          (sample_world [] [\<lparr>FILE = ''notes/b.md'', HEAD = 0, WORKDIR = 2, STAGE = 0\<rparr>]))
     = Inr None \<and>
   fst (commitAll sample_git (Some ''c2'')
          (sample_world [\<lparr>oid = ''c1''\<rparr>] [\<lparr>FILE = ''notes/b.md'', HEAD = 0, WORKDIR = 2, STAGE = 0\<rparr>]))
     = Inr (Some 2)"
proof -
  let ?rows = "[\<lparr>FILE = ''notes/b.md'', HEAD = 0, WORKDIR = 2, STAGE = 0\<rparr>]"
  let ?w0 = "setState PluginState_commit (sample_world [] ?rows)"
  let ?w1 = "setState PluginState_commit (sample_world [\<lparr>oid = ''c1''\<rparr>] ?rows)"
  let ?s0 = "(repo ?w0)\<lparr>repo_commits := [\<lparr>oid = ''vault backup''\<rparr>]\<rparr>"
  let ?s1 = "(repo ?w1)\<lparr>repo_commits := [\<lparr>oid = ''c2''\<rparr>, \<lparr>oid = ''c1''\<rparr>]\<rparr>"
  have a0: "getCurrentCommit sample_git ?w0 = (Inr None, ?w0)"
    by (simp add: sample_run)
  have a1: "getCurrentCommit sample_git ?w1 = (Inr (Some \<lparr>oid = ''c1''\<rparr>), ?w1)"
    by (simp add: sample_run)
  have steps0: "git_statusMatrix sample_git (repo ?w0) = Inr ?rows
        \<and> add_or_remove_all sample_git ?rows ?w0 = (Inr (), ?w0)
        \<and> (case None of Some m \<Rightarrow> Inr m | None \<Rightarrow> formatCommitMessage sample_git (repo ?w0))
            = Inr ''vault backup''
        \<and> git_commit sample_git ''vault backup'' (repo ?w0) = Inr ?s0
        \<and> getCurrentCommit sample_git (?w0\<lparr>repo := ?s0\<rparr>)
            = (Inr (Some \<lparr>oid = ''vault backup''\<rparr>), ?w0\<lparr>repo := ?s0\<rparr>)"
    by (simp add: sample_run)
  have steps1: "git_statusMatrix sample_git (repo ?w1) = Inr ?rows
        \<and> add_or_remove_all sample_git ?rows ?w1 = (Inr (), ?w1)
        \<and> (case Some ''c2'' of Some m \<Rightarrow> Inr m | None \<Rightarrow> formatCommitMessage sample_git (repo ?w1))
            = Inr ''c2''
        \<and> git_commit sample_git ''c2'' (repo ?w1) = Inr ?s1
        \<and> getCurrentCommit sample_git (?w1\<lparr>repo := ?s1\<rparr>)
            = (Inr (Some \<lparr>oid = ''c2''\<rparr>), ?w1\<lparr>repo := ?s1\<rparr>)"
    by (simp add: sample_run)
  have count: "fst (getChangedFiles sample_git ''c1'' ''c2''
                 (?w1\<lparr>repo := ?s1, lastUpdate := Date_now sample_git ?s1\<rparr>)) = Inr 2"
    by (simp add: getChangedFiles_def diff_def sample_run walk_c1_c2)
  from commitAll_result [OF a0, THEN conjunct2, rule_format, OF steps0]
  have r0: "fst (commitAll sample_git None (sample_world [] ?rows)) = Inr None"
    by simp
  from commitAll_result [OF a1, THEN conjunct2, rule_format, OF steps1] count
  have r1: "fst (commitAll sample_git (Some ''c2'') (sample_world [\<lparr>oid = ''c1''\<rparr>] ?rows))
      = Inr (Some 2)"
    by simp
  from r0 r1 show ?thesis by simp
qed

end
